theory Spec2Isabelle
  imports Complex_Main "HOL-Library.Multiset"
begin

chapter \<open>The program\<close>

section \<open>JavaScript numbers\<close>

text \<open>
  The rasterizer computes with JavaScript numbers. A number is modelled as an exact real,
  one of the two infinities, or NaN. Rounding of IEEE doubles is not modelled; every
  other rule of the operators used by the source (NaN propagation, division by zero,
  the sign of the remainder, comparisons with NaN) is written out. The sign of a zero is
  not kept: the only division by a possibly zero value in the source, \<open>(y - b) / m\<close>, is
  handed to \<open>floor\<close> at once, which sends both infinities to NaN.
\<close>

datatype jsnum = Fin real | PInf | NInf | NaN

definition inf_of_sign :: "real \<Rightarrow> jsnum" where
  "inf_of_sign s = (if 0 < s then PInf else if s < 0 then NInf else NaN)"

fun sign_of :: "jsnum \<Rightarrow> real" where
  "sign_of (Fin a) = sgn a"
| "sign_of PInf = 1"
| "sign_of NInf = - 1"
| "sign_of NaN = 0"

fun js_neg :: "jsnum \<Rightarrow> jsnum" where
  "js_neg (Fin a) = Fin (- a)"
| "js_neg PInf = NInf"
| "js_neg NInf = PInf"
| "js_neg NaN = NaN"

fun js_add :: "jsnum \<Rightarrow> jsnum \<Rightarrow> jsnum" where
  "js_add (Fin a) (Fin b) = Fin (a + b)"
| "js_add NaN _ = NaN"
| "js_add _ NaN = NaN"
| "js_add PInf NInf = NaN"
| "js_add NInf PInf = NaN"
| "js_add PInf _ = PInf"
| "js_add _ PInf = PInf"
| "js_add NInf _ = NInf"
| "js_add _ NInf = NInf"

definition js_sub :: "jsnum \<Rightarrow> jsnum \<Rightarrow> jsnum" where
  "js_sub a b = js_add a (js_neg b)"

fun js_mul :: "jsnum \<Rightarrow> jsnum \<Rightarrow> jsnum" where
  "js_mul (Fin a) (Fin b) = Fin (a * b)"
| "js_mul NaN _ = NaN"
| "js_mul _ NaN = NaN"
| "js_mul a b = inf_of_sign (sign_of a * sign_of b)"

fun js_div :: "jsnum \<Rightarrow> jsnum \<Rightarrow> jsnum" where
  "js_div (Fin a) (Fin b) = (if b = 0 then inf_of_sign (sgn a) else Fin (a / b))"
| "js_div NaN _ = NaN"
| "js_div _ NaN = NaN"
| "js_div (Fin a) _ = Fin 0"
| "js_div a (Fin b) = inf_of_sign (sign_of a * (if b < 0 then - 1 else 1))"
| "js_div _ _ = NaN"

text \<open>Truncation toward zero, the rounding of \<open>%\<close> and of \<open>parseInt\<close>.\<close>

definition trunc :: "real \<Rightarrow> int" where
  "trunc r = (if r < 0 then \<lceil>r\<rceil> else \<lfloor>r\<rfloor>)"

text \<open>The remainder operator \<open>%\<close>: the result has the sign of the dividend.\<close>

fun js_mod :: "jsnum \<Rightarrow> jsnum \<Rightarrow> jsnum" where
  "js_mod (Fin a) (Fin b) = (if b = 0 then NaN else Fin (a - b * of_int (trunc (a / b))))"
| "js_mod (Fin a) PInf = Fin a"
| "js_mod (Fin a) NInf = Fin a"
| "js_mod _ _ = NaN"

fun Math_floor :: "jsnum \<Rightarrow> jsnum" where
  "Math_floor (Fin a) = Fin (of_int \<lfloor>a\<rfloor>)"
| "Math_floor v = v"

fun js_le :: "jsnum \<Rightarrow> jsnum \<Rightarrow> bool" where
  "js_le (Fin a) (Fin b) = (a \<le> b)"
| "js_le NaN _ = False"
| "js_le _ NaN = False"
| "js_le NInf _ = True"
| "js_le _ PInf = True"
| "js_le _ _ = False"

fun js_lt :: "jsnum \<Rightarrow> jsnum \<Rightarrow> bool" where
  "js_lt (Fin a) (Fin b) = (a < b)"
| "js_lt NaN _ = False"
| "js_lt _ NaN = False"
| "js_lt PInf _ = False"
| "js_lt _ NInf = False"
| "js_lt _ _ = True"

fun Math_min :: "jsnum \<Rightarrow> jsnum \<Rightarrow> jsnum" where
  "Math_min NaN _ = NaN"
| "Math_min _ NaN = NaN"
| "Math_min a b = (if js_le a b then a else b)"

fun Math_max :: "jsnum \<Rightarrow> jsnum \<Rightarrow> jsnum" where
  "Math_max NaN _ = NaN"
| "Math_max _ NaN = NaN"
| "Math_max a b = (if js_le a b then b else a)"

section \<open>The helper \<open>floor\<close>\<close>

text \<open>
  \<^verbatim>\<open>function floor(n, modulo) { return Math.floor(n - n % modulo); }\<close>
\<close>

definition floor_js :: "jsnum \<Rightarrow> jsnum \<Rightarrow> jsnum" where
  "floor_js n modulus = Math_floor (js_sub n (js_mod n modulus))"

section \<open>Vertices, edges and the polygon\<close>

text \<open>
  A vertex is a circle element whose attributes \<open>cx\<close> and \<open>cy\<close> hold the text of a
  number; an edge is a line element with the attributes \<open>x1\<close>, \<open>y1\<close>, \<open>x2\<close>, \<open>y2\<close>,
  copied from its two vertices. An attribute is modelled by the number whose
  rendering it holds, and reading it back with \<open>parseInt\<close> by \<open>parseInt_attr\<close>.

  A number prints in positional notation when it is zero or its magnitude lies in
  \<open>[10^-6, 10^21)\<close>, and \<open>parseInt\<close> then reads the digits before the decimal point:
  truncation toward zero. Otherwise it prints in exponent notation and \<open>parseInt\<close>
  reads the single digit before the point or the \<open>e\<close>; the model takes the leading
  digit of the exact value there. \<open>Infinity\<close> and \<open>NaN\<close> do not parse.
\<close>

fun msd :: "nat \<Rightarrow> nat" where
  "msd n = (if n < 10 then n else msd (n div 10))"

fun numDigits :: "nat \<Rightarrow> nat" where
  "numDigits n = (if n < 10 then 1 else Suc (numDigits (n div 10)))"

definition leadingDigit :: "real \<Rightarrow> int" where
  "leadingDigit q = int (msd (nat \<lfloor>q * 10 ^ numDigits (nat \<lceil>1 / q\<rceil>)\<rfloor>))"

definition positional :: "real \<Rightarrow> bool" where
  "positional q \<longleftrightarrow> q = 0 \<or> (1 / 10 ^ 6 \<le> \<bar>q\<bar> \<and> \<bar>q\<bar> < 10 ^ 21)"

fun parseInt_attr :: "jsnum \<Rightarrow> jsnum" where
  "parseInt_attr (Fin q) =
     (if positional q then Fin (of_int (trunc q))
      else Fin (sgn q * of_int (leadingDigit \<bar>q\<bar>)))"
| "parseInt_attr _ = NaN"

record point =
  pt_x :: jsnum
  pt_y :: jsnum

record vertex =
  cx :: jsnum
  cy :: jsnum

record edge =
  attr_x1 :: jsnum
  attr_y1 :: jsnum
  attr_x2 :: jsnum
  attr_y2 :: jsnum

record edge_position =
  pos_x1 :: jsnum
  pos_y1 :: jsnum
  pos_x2 :: jsnum
  pos_y2 :: jsnum

definition Vertex :: "point \<Rightarrow> vertex" where
  "Vertex options = \<lparr>cx = pt_x options, cy = pt_y options\<rparr>"

definition vertex_position :: "vertex \<Rightarrow> point" where
  "vertex_position v = \<lparr>pt_x = parseInt_attr (cx v), pt_y = parseInt_attr (cy v)\<rparr>"

definition Edge :: "vertex \<Rightarrow> vertex \<Rightarrow> edge" where
  "Edge leftVertex rightVertex =
     \<lparr>attr_x1 = cx leftVertex, attr_y1 = cy leftVertex,
      attr_x2 = cx rightVertex, attr_y2 = cy rightVertex\<rparr>"

definition position :: "edge \<Rightarrow> edge_position" where
  "position e =
     \<lparr>pos_x1 = parseInt_attr (attr_x1 e), pos_y1 = parseInt_attr (attr_y1 e),
      pos_x2 = parseInt_attr (attr_x2 e), pos_y2 = parseInt_attr (attr_y2 e)\<rparr>"

record polygon =
  vertices :: "vertex list"
  edges :: "edge list"

text \<open>
  \<open>initializePieces\<close>: vertex \<open>sideIndex\<close> is placed radially unless \<open>options.points\<close>
  is present and has an entry at that index; edge \<open>edgeIndex\<close> joins the vertices
  \<open>edgeIndex\<close> and \<open>(edgeIndex + 1) % sides\<close>.
\<close>

definition radial :: "nat \<Rightarrow> nat \<Rightarrow> point" where
  "radial sides sideIndex =
     \<lparr>pt_x = Fin (150 + cos ((pi * 2 * real sideIndex + pi / 2) / real sides) * 100),
      pt_y = Fin (150 + sin ((pi * 2 * real sideIndex + pi / 2) / real sides) * 100)\<rparr>"

definition initial_point :: "nat \<Rightarrow> point list option \<Rightarrow> nat \<Rightarrow> point" where
  "initial_point sides points sideIndex =
     (case points of
        None \<Rightarrow> radial sides sideIndex
      | Some ps \<Rightarrow> if sideIndex < length ps then ps ! sideIndex else radial sides sideIndex)"

definition initializePieces :: "nat \<Rightarrow> point list option \<Rightarrow> polygon" where
  "initializePieces sides points =
     (let vs = map (\<lambda>sideIndex. Vertex (initial_point sides points sideIndex)) [0..<sides]
      in \<lparr>vertices = vs,
          edges = map (\<lambda>edgeIndex. Edge (vs ! edgeIndex) (vs ! ((edgeIndex + 1) mod sides)))
                    [0..<sides]\<rparr>)"

definition Polygon :: "nat \<Rightarrow> point list option \<Rightarrow> polygon" where
  "Polygon sides points = initializePieces sides points"

definition vertexPositions :: "polygon \<Rightarrow> point list" where
  "vertexPositions p = map vertex_position (vertices p)"

section \<open>The scan-line fill\<close>

text \<open>
  \<open>squares\<close> maps a column key to the list of rows pushed for it; \<open>xValues\<close> is the
  table of pending intersections, keyed by the scan-line. Object keys are the texts of
  numbers, so two keys agree exactly when the numbers do (NaN is the one key \<open>"NaN"\<close>).
\<close>

record fill_state =
  squares :: "jsnum \<rightharpoonup> jsnum list"
  xValues :: "jsnum \<rightharpoonup> jsnum"

definition push_square :: "(jsnum \<rightharpoonup> jsnum list) \<Rightarrow> jsnum \<Rightarrow> jsnum \<Rightarrow> (jsnum \<rightharpoonup> jsnum list)" where
  "push_square sq col row = sq(col \<mapsto> (case sq col of None \<Rightarrow> [] | Some rows \<Rightarrow> rows) @ [row])"

text \<open>
  The inner loop \<^verbatim>\<open>for (let tileX = xa; tileX < xb; tileX += tileSize)\<close>. It need not
  terminate (a tile size of zero or below), so it returns an option.
\<close>

partial_function (option) fillTiles ::
  "jsnum \<Rightarrow> jsnum \<Rightarrow> jsnum \<Rightarrow> (jsnum \<rightharpoonup> jsnum list) \<Rightarrow> jsnum \<Rightarrow> (jsnum \<rightharpoonup> jsnum list) option"
where
  "fillTiles tileSize y xb sq tileX =
     (if js_lt tileX xb
      then fillTiles tileSize y xb
             (push_square sq (js_div tileX tileSize) (js_div y tileSize))
             (js_add tileX tileSize)
      else Some sq)"

text \<open>The body of the scan loop once \<open>x\<close> is known: pair with a pending value, or record.\<close>

definition crossing :: "jsnum \<Rightarrow> jsnum \<Rightarrow> jsnum \<Rightarrow> fill_state \<Rightarrow> fill_state option" where
  "crossing tileSize y x st =
     (case xValues st y of
        Some xv \<Rightarrow>
          (let xa = Math_min x xv; xb = Math_max x xv
           in map_option (\<lambda>sq. \<lparr>squares = sq, xValues = (xValues st)(y := None)\<rparr>)
                (fillTiles tileSize y xb (squares st) xa))
      | None \<Rightarrow> Some (st\<lparr>xValues := (xValues st)(y \<mapsto> floor_js x tileSize)\<rparr>))"

definition xIntersect :: "jsnum \<Rightarrow> jsnum \<Rightarrow> jsnum \<Rightarrow> jsnum \<Rightarrow> jsnum" where
  "xIntersect tileSize m b y = floor_js (js_div (js_sub y b) m) tileSize"

text \<open>
  The scan loop \<^verbatim>\<open>for (let y = ...; y <= yb; y += tileSize)\<close>, started by
  \<open>accumulateSquaresForEdge\<close> at \<open>floor(ya, tileSize) + tileSize\<close>.
\<close>

partial_function (option) scanLoop ::
  "jsnum \<Rightarrow> jsnum \<Rightarrow> jsnum \<Rightarrow> jsnum \<Rightarrow> fill_state \<Rightarrow> jsnum \<Rightarrow> fill_state option"
where
  "scanLoop tileSize m b yb st y =
     (if js_le y yb
      then Option.bind (crossing tileSize y (xIntersect tileSize m b y) st)
             (\<lambda>st'. scanLoop tileSize m b yb st' (js_add y tileSize))
      else Some st)"

text \<open>The slope and intercept of an edge, after the shift by half a tile.\<close>

definition slope :: "jsnum \<Rightarrow> edge_position \<Rightarrow> jsnum" where
  "slope tileSize pos =
     (let x1 = js_add (pos_x1 pos) (js_div tileSize (Fin 2));
          x2 = js_add (pos_x2 pos) (js_div tileSize (Fin 2));
          y1 = js_sub (pos_y1 pos) (js_div tileSize (Fin 2));
          y2 = js_sub (pos_y2 pos) (js_div tileSize (Fin 2));
          rise = js_sub y2 y1;
          run = js_sub x2 x1
      in if run = Fin 0 then Fin 0 else js_div rise run)"

definition intercept :: "jsnum \<Rightarrow> edge_position \<Rightarrow> jsnum" where
  "intercept tileSize pos =
     (let x1 = js_add (pos_x1 pos) (js_div tileSize (Fin 2));
          y1 = js_sub (pos_y1 pos) (js_div tileSize (Fin 2));
          m = slope tileSize pos
      in js_sub y1 (js_mul m x1))"

definition edge_ya :: "jsnum \<Rightarrow> edge_position \<Rightarrow> jsnum" where
  "edge_ya tileSize pos =
     Math_min (js_sub (pos_y1 pos) (js_div tileSize (Fin 2)))
              (js_sub (pos_y2 pos) (js_div tileSize (Fin 2)))"

definition edge_yb :: "jsnum \<Rightarrow> edge_position \<Rightarrow> jsnum" where
  "edge_yb tileSize pos =
     Math_max (js_sub (pos_y1 pos) (js_div tileSize (Fin 2)))
              (js_sub (pos_y2 pos) (js_div tileSize (Fin 2)))"

definition accumulateSquaresForEdge :: "jsnum \<Rightarrow> fill_state \<Rightarrow> edge \<Rightarrow> fill_state option" where
  "accumulateSquaresForEdge tileSize st e =
     (let pos = position e;
          m = slope tileSize pos;
          b = intercept tileSize pos;
          ya = edge_ya tileSize pos;
          yb = edge_yb tileSize pos
      in scanLoop tileSize m b yb st (js_add (floor_js ya tileSize) tileSize))"

text \<open>\<^verbatim>\<open>edges.forEach(accumulateSquaresForEdge)\<close>, from the empty tables.\<close>

fun forEach_edges :: "jsnum \<Rightarrow> edge list \<Rightarrow> fill_state \<Rightarrow> fill_state option" where
  "forEach_edges tileSize [] st = Some st"
| "forEach_edges tileSize (e # es) st =
     Option.bind (accumulateSquaresForEdge tileSize st e) (forEach_edges tileSize es)"

definition fillPass :: "jsnum \<Rightarrow> polygon \<Rightarrow> fill_state option" where
  "fillPass tileSize p =
     forEach_edges tileSize (edges p) \<lparr>squares = Map.empty, xValues = Map.empty\<rparr>"

definition computeFilledSquares :: "jsnum \<Rightarrow> polygon \<Rightarrow> (jsnum \<rightharpoonup> jsnum list) option" where
  "computeFilledSquares tileSize p = map_option squares (fillPass tileSize p)"


section \<open>Initial positions as the specification words them\<close>

text \<open>
  The specification's reading of \<open>initialize(sides, optionalPoints)\<close>, kept apart from
  the code's \<open>initializePieces\<close> so that the two can be compared: the given points when
  there are at least \<open>sides\<close> of them, otherwise every vertex on the circle of radius 100
  around (150,150), the first at 90 degrees and each next one 360/sides degrees further.
\<close>

definition spec_radial :: "nat \<Rightarrow> nat \<Rightarrow> point" where
  "spec_radial sides i =
     \<lparr>pt_x = Fin (150 + cos (pi / 2 + real i * (2 * pi / real sides)) * 100),
      pt_y = Fin (150 + sin (pi / 2 + real i * (2 * pi / real sides)) * 100)\<rparr>"

definition spec_initial_vertices :: "nat \<Rightarrow> point list option \<Rightarrow> vertex list" where
  "spec_initial_vertices sides points =
     (case points of
        Some ps \<Rightarrow> if sides \<le> length ps then map Vertex (take sides ps)
                   else map (\<lambda>i. Vertex (spec_radial sides i)) [0..<sides]
      | None \<Rightarrow> map (\<lambda>i. Vertex (spec_radial sides i)) [0..<sides])"

definition has_point :: "point list option \<Rightarrow> nat \<Rightarrow> bool" where
  "has_point points i = (case points of None \<Rightarrow> False | Some ps \<Rightarrow> i < length ps)"

section \<open>Reading positions back\<close>

text \<open>What \<open>parseInt\<close> makes of a number printed in positional notation.\<close>

fun truncated :: "jsnum \<Rightarrow> jsnum" where
  "truncated (Fin q) = Fin (of_int (trunc q))"
| "truncated v = NaN"

fun prints_positional :: "jsnum \<Rightarrow> bool" where
  "prints_positional (Fin q) = positional q"
| "prints_positional v = False"

section \<open>Loading the settings at startup\<close>

text \<open>
  \<^verbatim>\<open>const settings = Object.assign({ sides: 4, points: undefined },
      JSON.parse(localStorage.getItem('rasterizer.settings') || '{}'));\<close>

  \<open>getItem\<close> yields the stored text or null (\<open>None\<close>); null and the empty text are
  falsy and replaced by \<open>'{}'\<close>. \<open>JSON.parse\<close> belongs to the host and is a
  parameter: it returns a value or throws a SyntaxError, and nothing in \<open>Rasterizer\<close>
  catches it. \<open>Object.assign\<close> copies the own keys of an object; only \<open>sides\<close> and
  \<open>points\<close> are read afterwards, and a later duplicate key overrides an earlier one. A
  source that is not an object has no key of these names. \<open>None\<close> in a field stands
  for \<open>undefined\<close>.
\<close>

datatype json = JNull | JBool bool | JNumber real | JString string
  | JArray "json list" | JObject "(string \<times> json) list"

datatype error = SyntaxError

record settings =
  settings_sides :: "json option"
  settings_points :: "json option"

definition default_settings :: settings where
  "default_settings = \<lparr>settings_sides = Some (JNumber 4), settings_points = None\<rparr>"

fun Object_assign :: "settings \<Rightarrow> json \<Rightarrow> settings" where
  "Object_assign target (JObject kvs) =
     fold (\<lambda>(k, v) t.
             if k = ''sides'' then t\<lparr>settings_sides := Some v\<rparr>
             else if k = ''points'' then t\<lparr>settings_points := Some v\<rparr>
             else t) kvs target"
| "Object_assign target _ = target"

definition load_settings :: "(string \<Rightarrow> error + json) \<Rightarrow> string option \<Rightarrow> error + settings" where
  "load_settings JSON_parse item =
     (let text = (case item of None \<Rightarrow> ''{}'' | Some s \<Rightarrow> if s = [] then ''{}'' else s)
      in case JSON_parse text of
           Inl e \<Rightarrow> Inl e
         | Inr v \<Rightarrow> Inr (Object_assign default_settings v))"

text \<open>
  A parser to run the model on: it is right on the text \<open>{}\<close> and rejects every other
  text, among them the ill-formed texts used below.
\<close>

definition only_empty_object :: "string \<Rightarrow> error + json" where
  "only_empty_object s = (if s = ''{}'' then Inr (JObject []) else Inl SyntaxError)"

section \<open>The iterations of the loops\<close>

text \<open>
  The scan-lines that the loop of \<open>scanLoop\<close> visits, in order: the same loop header,
  collecting \<open>y\<close> instead of running the body.
\<close>

partial_function (option) scanLines :: "jsnum \<Rightarrow> jsnum \<Rightarrow> jsnum \<Rightarrow> jsnum list option" where
  "scanLines tileSize yb y =
     (if js_le y yb
      then Option.bind (scanLines tileSize yb (js_add y tileSize)) (\<lambda>ys. Some (y # ys))
      else Some [])"

text \<open>A crossing is a pair of a scan-line and the floored intersection found on it.\<close>

fun run :: "jsnum \<Rightarrow> (jsnum \<times> jsnum) list \<Rightarrow> fill_state \<Rightarrow> fill_state option" where
  "run tileSize [] st = Some st"
| "run tileSize (c # cs) st =
     Option.bind (crossing tileSize (fst c) (snd c) st) (run tileSize cs)"

definition edge_scanLines :: "jsnum \<Rightarrow> edge \<Rightarrow> jsnum list option" where
  "edge_scanLines tileSize e =
     (let pos = position e
      in scanLines tileSize (edge_yb tileSize pos)
           (js_add (floor_js (edge_ya tileSize pos) tileSize) tileSize))"

definition edge_crossings :: "jsnum \<Rightarrow> edge \<Rightarrow> (jsnum \<times> jsnum) list option" where
  "edge_crossings tileSize e =
     map_option
       (map (\<lambda>y. (y, xIntersect tileSize (slope tileSize (position e))
                        (intercept tileSize (position e)) y)))
       (edge_scanLines tileSize e)"

fun pass_crossings :: "jsnum \<Rightarrow> edge list \<Rightarrow> (jsnum \<times> jsnum) list option" where
  "pass_crossings tileSize [] = Some []"
| "pass_crossings tileSize (e # es) =
     Option.bind (edge_crossings tileSize e)
       (\<lambda>cs. map_option ((@) cs) (pass_crossings tileSize es))"

text \<open>The crossings of the line \<open>y\<close> in a list, and the list without the last of them.\<close>

definition crossings_at :: "jsnum \<Rightarrow> (jsnum \<times> jsnum) list \<Rightarrow> (jsnum \<times> jsnum) list" where
  "crossings_at y cs = filter (\<lambda>c. fst c = y) cs"

fun drop_first :: "jsnum \<Rightarrow> (jsnum \<times> jsnum) list \<Rightarrow> (jsnum \<times> jsnum) list" where
  "drop_first y [] = []"
| "drop_first y (c # cs) = (if fst c = y then cs else c # drop_first y cs)"

definition drop_last :: "jsnum \<Rightarrow> (jsnum \<times> jsnum) list \<Rightarrow> (jsnum \<times> jsnum) list" where
  "drop_last y cs = rev (drop_first y (rev cs))"

text \<open>The values \<open>a, a + t, a + 2 t, ...\<close> taken by a loop variable in \<open>n\<close> iterations.\<close>

fun steps :: "real \<Rightarrow> real \<Rightarrow> nat \<Rightarrow> real list" where
  "steps t a 0 = []"
| "steps t a (Suc n) = a # steps t (a + t) n"

text \<open>Values that are not infinite, and tables whose pending values are all of this kind.\<close>

fun no_inf :: "jsnum \<Rightarrow> bool" where
  "no_inf PInf = False"
| "no_inf NInf = False"
| "no_inf v = True"




section \<open>The emission as the specification words it\<close>



section \<open>A polygon inside one tile\<close>







section \<open>Inputs for the examples\<close>

text \<open>The square of the scenario.\<close>

definition square_points :: "point list" where
  "square_points =
     [\<lparr>pt_x = Fin 100, pt_y = Fin 100\<rparr>, \<lparr>pt_x = Fin 200, pt_y = Fin 100\<rparr>,
      \<lparr>pt_x = Fin 200, pt_y = Fin 200\<rparr>, \<lparr>pt_x = Fin 100, pt_y = Fin 200\<rparr>]"

text \<open>A triangle with a vertex at x = 1.5.\<close>

definition fractional_points :: "point list" where
  "fractional_points =
     [\<lparr>pt_x = Fin (3 / 2), pt_y = Fin 2\<rparr>, \<lparr>pt_x = Fin 30, pt_y = Fin 4\<rparr>,
      \<lparr>pt_x = Fin 20, pt_y = Fin 40\<rparr>]"





text \<open>A triangle with a vertex above the canvas: only one of its edges reaches the line 0.\<close>

definition above_points :: "point list" where
  "above_points =
     [\<lparr>pt_x = Fin 0, pt_y = Fin 0\<rparr>, \<lparr>pt_x = Fin 20, pt_y = Fin 20\<rparr>,
      \<lparr>pt_x = Fin 40, pt_y = Fin (- 20)\<rparr>]"



chapter \<open>Properties\<close>

section \<open>Evaluation\<close>

lemma upt_3: "[0..<3] = [0, 1, 2]"
  by (simp add: upt_rec)

lemma upt_4: "[0..<4] = [0, 1, 2, 3]"
  by (simp add: upt_rec)

lemma vertices_Polygon:
  "vertices (Polygon sides points) =
     map (\<lambda>sideIndex. Vertex (initial_point sides points sideIndex)) [0..<sides]"
  by (simp add: Polygon_def initializePieces_def Let_def)

lemmas polygon_eval =
  Polygon_def initializePieces_def initial_point_def Vertex_def Edge_def Let_def
  position_def positional_def trunc_def ceiling_def

lemmas fill_eval =
  fillPass_def computeFilledSquares_def accumulateSquaresForEdge_def slope_def
  intercept_def edge_ya_def edge_yb_def js_sub_def floor_js_def scanLoop.simps
  crossing_def xIntersect_def inf_of_sign_def fillTiles.simps

section \<open>Numbers\<close>

lemma no_inf_cases: "no_inf v \<Longrightarrow> (\<exists>a. v = Fin a) \<or> v = NaN"
  by (cases v) simp_all


lemma floor_js_Fin:
  "t \<noteq> 0 \<Longrightarrow> floor_js (Fin a) (Fin t) = Fin (of_int \<lfloor>t * of_int (trunc (a / t))\<rfloor>)"
  by (simp add: floor_js_def js_sub_def)

lemma floor_js_NaN [simp]: "floor_js NaN T = NaN"
  by (simp add: floor_js_def js_sub_def)

lemma floor_js_PInf [simp]: "floor_js PInf T = NaN"
  by (simp add: floor_js_def js_sub_def)

lemma floor_js_NInf [simp]: "floor_js NInf T = NaN"
  by (simp add: floor_js_def js_sub_def)

lemma no_inf_floor_js: "t \<noteq> 0 \<Longrightarrow> no_inf (floor_js v (Fin t))"
  by (cases v) (simp_all add: floor_js_Fin)






section \<open>The inner loop\<close>






lemma no_inf_Math_min: "no_inf a \<Longrightarrow> no_inf b \<Longrightarrow> no_inf (Math_min a b)"
  by (cases a; cases b) auto

lemma no_inf_Math_max: "no_inf a \<Longrightarrow> no_inf b \<Longrightarrow> no_inf (Math_max a b)"
  by (cases a; cases b) auto

section \<open>One crossing\<close>

lemma crossing_record:
  "xValues st y = None \<Longrightarrow>
   crossing T y x st = Some (st\<lparr>xValues := (xValues st)(y \<mapsto> floor_js x T)\<rparr>)"
  by (simp add: crossing_def)




lemma run_append: "run T (cs @ ds) st = Option.bind (run T cs st) (run T ds)"
proof (induction cs arbitrary: st)
  case Nil
  show ?case by simp
next
  case (Cons c cs)
  show ?case
    by (cases "crossing T (fst c) (snd c) st") (simp_all add: Cons.IH)
qed

section \<open>The scan loop\<close>

lemma scanLines_stop: "\<not> js_le y yb \<Longrightarrow> scanLines T yb y = Some []"
  by (subst scanLines.simps) simp

lemma scanLines_step:
  "js_le y yb \<Longrightarrow>
   scanLines T yb y = Option.bind (scanLines T yb (js_add y T)) (\<lambda>ys. Some (y # ys))"
  by (subst scanLines.simps) simp

lemma scanLines_Fin:
  assumes "0 < t"
  shows "scanLines (Fin t) (Fin yb) (Fin y) =
           Some (map Fin (steps t y (nat (\<lfloor>(yb - y) / t\<rfloor> + 1))))"
proof (induction "nat (\<lfloor>(yb - y) / t\<rfloor> + 1)" arbitrary: y)
  case 0
  then have "(yb - y) / t < 0" by linarith
  with assms have "\<not> y \<le> yb" by (simp add: divide_less_0_iff)
  with 0 show ?case by (simp add: scanLines_stop)
next
  case (Suc n)
  then have "0 \<le> (yb - y) / t" by linarith
  with assms have le: "y \<le> yb" by (simp add: zero_le_divide_iff)
  have "(yb - (y + t)) / t = (yb - y) / t - 1"
    using assms by (simp add: field_simps)
  then have n: "n = nat (\<lfloor>(yb - (y + t)) / t\<rfloor> + 1)"
    using Suc.hyps(2) by simp
  show ?case
    using le Suc.hyps(1) [OF n] n Suc.hyps(2) [symmetric] by (simp add: scanLines_step)
qed


lemma scanLines_Some_cases:
  assumes "scanLines T yb y = Some ys"
  shows "(\<not> js_le y yb \<and> ys = []) \<or>
         (js_le y yb \<and> (\<exists>ys'. ys = y # ys' \<and> scanLines T yb (js_add y T) = Some ys'))"
proof (cases "js_le y yb")
  case True
  with assms show ?thesis
    by (auto simp: scanLines_step bind_eq_Some_conv)
next
  case False
  with assms show ?thesis by (simp add: scanLines_stop)
qed

lemma scanLoop_scanLines:
  "scanLines T yb y = Some ys \<Longrightarrow>
   scanLoop T m b yb st y = run T (map (\<lambda>y. (y, xIntersect T m b y)) ys) st"
proof (induction ys arbitrary: y st)
  case Nil
  with scanLines_Some_cases [OF Nil] have "\<not> js_le y yb" by auto
  then show ?case by (subst scanLoop.simps) simp
next
  case (Cons y' ys)
  from scanLines_Some_cases [OF Cons.prems]
  have le: "js_le y yb" and y': "y' = y" and rest: "scanLines T yb (js_add y T) = Some ys"
    by auto
  show ?case
    using le y' Cons.IH [OF rest] by (subst scanLoop.simps) simp
qed

lemma accumulate_crossings:
  "edge_crossings T e = Some cs \<Longrightarrow> accumulateSquaresForEdge T st e = run T cs st"
  by (auto simp: edge_crossings_def edge_scanLines_def accumulateSquaresForEdge_def Let_def
      scanLoop_scanLines)

lemma forEach_crossings:
  "pass_crossings T es = Some cs \<Longrightarrow> forEach_edges T es st = run T cs st"
proof (induction es arbitrary: cs st)
  case Nil
  then show ?case by simp
next
  case (Cons e es)
  then obtain c1 c2 where c1: "edge_crossings T e = Some c1"
    and c2: "pass_crossings T es = Some c2" and cs: "cs = c1 @ c2"
    by (auto simp: bind_eq_Some_conv)
  show ?case
    by (simp add: cs run_append accumulate_crossings [OF c1] Cons.IH [OF c2] cong: Option.bind_cong)
qed


section \<open>A pass is the run of its crossings\<close>

lemma scanLoop_Some_scanLines:
  assumes "scanLoop T m b yb st y = Some st'"
  shows "\<exists>ys. scanLines T yb y = Some ys"
proof (rule scanLoop.raw_induct
    [where P = "\<lambda>T m b yb st y st'. \<exists>ys. scanLines T yb y = Some ys"])
  fix loop T m b yb st y r
  assume IH: "\<And>T m b yb st y r. loop T m b yb st y = Some r \<Longrightarrow> \<exists>ys. scanLines T yb y = Some ys"
    and step: "(if js_le y yb
                then Option.bind (crossing T y (xIntersect T m b y) st)
                       (\<lambda>st'. loop T m b yb st' (js_add y T))
                else Some st) = Some r"
  show "\<exists>ys. scanLines T yb y = Some ys"
  proof (cases "js_le y yb")
    case True
    with step obtain st1 where "loop T m b yb st1 (js_add y T) = Some r"
      by (auto simp: bind_eq_Some_conv)
    from IH [OF this] obtain ys where "scanLines T yb (js_add y T) = Some ys" by blast
    with True show ?thesis by (simp add: scanLines_step)
  next
    case False
    then show ?thesis by (simp add: scanLines_stop)
  qed
next
  show "scanLoop T m b yb st y = Some st'" by fact
qed

lemma accumulate_Some_crossings:
  assumes "accumulateSquaresForEdge T st e = Some st'"
  shows "\<exists>cs. edge_crossings T e = Some cs"
proof -
  from assms scanLoop_Some_scanLines obtain ys where "edge_scanLines T e = Some ys"
    unfolding accumulateSquaresForEdge_def edge_scanLines_def Let_def by blast
  then show ?thesis by (simp add: edge_crossings_def)
qed

lemma forEach_Some_crossings:
  "forEach_edges T es st = Some st' \<Longrightarrow> \<exists>cs. pass_crossings T es = Some cs"
proof (induction es arbitrary: st)
  case Nil
  show ?case by simp
next
  case (Cons e es)
  then obtain st1 where a: "accumulateSquaresForEdge T st e = Some st1"
    and r: "forEach_edges T es st1 = Some st'"
    by (auto simp: bind_eq_Some_conv)
  from accumulate_Some_crossings [OF a] Cons.IH [OF r] show ?case by auto
qed

lemma fillPass_crossings:
  assumes "fillPass T p = Some st"
  shows "\<exists>cs. pass_crossings T (edges p) = Some cs \<and>
              run T cs \<lparr>squares = Map.empty, xValues = Map.empty\<rparr> = Some st"
proof -
  from assms forEach_Some_crossings obtain cs where cs: "pass_crossings T (edges p) = Some cs"
    unfolding fillPass_def by blast
  from forEach_crossings [OF cs] assms show ?thesis
    by (simp add: fillPass_def cs)
qed

section \<open>Crossings of other scan-lines\<close>

lemma crossing_xValues:
  assumes "crossing T y x st = Some st'"
  shows "xValues st' =
           (case xValues st y of
              None \<Rightarrow> (xValues st)(y \<mapsto> floor_js x T)
            | Some xv \<Rightarrow> (xValues st)(y := None))"
  using assms by (auto simp: crossing_def Let_def split: option.splits)

lemma crossing_frame:
  assumes "y' \<noteq> y"
  shows "crossing T y' x (st\<lparr>xValues := (xValues st)(y := v)\<rparr>) =
           map_option (\<lambda>s. s\<lparr>xValues := (xValues s)(y := v)\<rparr>) (crossing T y' x st)"
proof (cases "xValues st y'")
  case None
  with assms show ?thesis by (simp add: crossing_def fun_upd_twist)
next
  case (Some xv)
  with assms show ?thesis
    by (simp add: crossing_def Let_def option.map_comp o_def fun_upd_twist)
qed

lemma run_frame:
  "run T cs st = Some st' \<Longrightarrow> \<forall>c \<in> set cs. fst c \<noteq> y \<Longrightarrow>
   run T cs (st\<lparr>xValues := (xValues st)(y := v)\<rparr>) = Some (st'\<lparr>xValues := (xValues st')(y := v)\<rparr>)"
proof (induction cs arbitrary: st)
  case Nil
  then show ?case by simp
next
  case (Cons c cs)
  from Cons.prems(1) obtain st1 where c: "crossing T (fst c) (snd c) st = Some st1"
    and r: "run T cs st1 = Some st'"
    by (auto simp: bind_eq_Some_conv)
  from Cons.prems(2) have ne: "fst c \<noteq> y" and rest: "\<forall>c \<in> set cs. fst c \<noteq> y" by simp_all
  from crossing_frame [OF ne, of T "snd c" st v] c
  have "crossing T (fst c) (snd c) (st\<lparr>xValues := (xValues st)(y := v)\<rparr>) =
          Some (st1\<lparr>xValues := (xValues st1)(y := v)\<rparr>)"
    by (simp only: option.map)
  then show ?case
    using Cons.IH [OF r rest] by (simp only: run.simps bind.simps)
qed

lemma run_other_lines:
  "run T cs st = Some st' \<Longrightarrow> \<forall>c \<in> set cs. fst c \<noteq> y \<Longrightarrow> xValues st' y = xValues st y"
proof (induction cs arbitrary: st)
  case Nil
  then show ?case by simp
next
  case (Cons c cs)
  from Cons.prems(1) obtain st1 where c: "crossing T (fst c) (snd c) st = Some st1"
    and r: "run T cs st1 = Some st'"
    by (auto simp: bind_eq_Some_conv)
  from Cons.prems(2) have ne: "fst c \<noteq> y" and "\<forall>c \<in> set cs. fst c \<noteq> y" by simp_all
  with Cons.IH [OF r] have "xValues st' y = xValues st1 y" by simp
  also from crossing_xValues [OF c] ne have "xValues st1 y = xValues st y"
    by (simp split: option.splits)
  finally show ?case .
qed

lemma run_parity:
  "run T cs st = Some st' \<Longrightarrow>
   (xValues st' y = None) = ((xValues st y = None) = even (length (crossings_at y cs)))"
proof (induction cs arbitrary: st)
  case Nil
  then show ?case by (simp add: crossings_at_def)
next
  case (Cons c cs)
  from Cons.prems obtain st1 where c: "crossing T (fst c) (snd c) st = Some st1"
    and r: "run T cs st1 = Some st'"
    by (auto simp: bind_eq_Some_conv)
  have "(xValues st1 y = None) = ((xValues st y = None) = (fst c \<noteq> y))"
    using crossing_xValues [OF c] by (auto split: option.splits)
  with Cons.IH [OF r] show ?case by (auto simp: crossings_at_def)
qed

section \<open>Termination for a positive tile size\<close>

lemma no_inf_parseInt_attr: "no_inf (parseInt_attr v)"
  by (cases v) simp_all

lemma no_inf_js_add: "no_inf a \<Longrightarrow> no_inf b \<Longrightarrow> no_inf (js_add a b)"
  by (cases a; cases b) auto

lemma no_inf_js_sub: "no_inf a \<Longrightarrow> no_inf b \<Longrightarrow> no_inf (js_sub a b)"
  by (cases a; cases b) (auto simp: js_sub_def)

lemma no_inf_edge_ya: "no_inf (edge_ya (Fin t) (position e))"
  by (simp add: edge_ya_def position_def no_inf_Math_min no_inf_js_sub no_inf_parseInt_attr)

lemma no_inf_edge_yb: "no_inf (edge_yb (Fin t) (position e))"
  by (simp add: edge_yb_def position_def no_inf_Math_max no_inf_js_sub no_inf_parseInt_attr)






section \<open>The tiles of a run, line by line\<close>



section \<open>The square of the scenario (C1)\<close>

text \<open>
  C1. For the square (100,100), (200,100), (200,200), (100,200) and tile size 20 the
  claim expects the 25 tiles with column and row in [5,10). The code returns no tile at
  all: the two horizontal edges are never scanned, and on the two vertical edges the
  slope is set to 0, so every intersection \<open>(y - b) / 0\<close> is infinite and \<open>floor\<close> turns
  it into NaN; the pairs (NaN, NaN) span no tile.
\<close>

theorem square_scenario_returns_no_tiles:
  "computeFilledSquares (Fin 20) (Polygon 4 (Some square_points)) = Some Map.empty"
  by (simp add: polygon_eval fill_eval square_points_def upt_4)

section \<open>The second crossing of a scan-line (C2)\<close>

lemma Math_min_Fin: "Math_min (Fin a) (Fin b) = Fin (min a b)"
  by (simp add: min_def)

lemma Math_max_Fin: "Math_max (Fin a) (Fin b) = Fin (max a b)"
  by (simp add: max_def)







section \<open>The scan-lines and intersections of a slanted edge (C3)\<close>







section \<open>Flat edges (C4)\<close>








section \<open>The order of the edges (C5)\<close>













section \<open>A polygon inside one tile (C6)\<close>









section \<open>Reading the vertex positions back (C7)\<close>

lemma parseInt_attr_positional: "prints_positional v \<Longrightarrow> parseInt_attr v = truncated v"
  by (cases v) simp_all

text \<open>
  C7, as stated, fails: a coordinate written into the attribute comes back through
  \<open>parseInt\<close>, so 1.5 is returned as 1, half a unit away from what was given.
\<close>

theorem vertexPositions_roundtrip_counterexample:
  "vertexPositions (Polygon 3 (Some fractional_points)) =
     [\<lparr>pt_x = Fin 1, pt_y = Fin 2\<rparr>, \<lparr>pt_x = Fin 30, pt_y = Fin 4\<rparr>,
      \<lparr>pt_x = Fin 20, pt_y = Fin 40\<rparr>] \<and>
   vertexPositions (Polygon 3 (Some fractional_points)) \<noteq> fractional_points"
  by (simp add: vertexPositions_def vertices_Polygon upt_3 initial_point_def Vertex_def
      vertex_position_def fractional_points_def positional_def trunc_def)

text \<open>
  C7, amended. With at least \<open>sides\<close> points whose coordinates print in positional
  notation (zero, or a magnitude in \<open>[10^-6, 10^21)\<close>), \<open>vertexPositions\<close> right after
  construction returns the first \<open>sides\<close> points with every coordinate truncated
  toward zero to an integer.
\<close>

theorem vertexPositions_roundtrip:
  assumes "sides \<le> length ps"
    and "\<forall>p \<in> set (take sides ps). prints_positional (pt_x p) \<and> prints_positional (pt_y p)"
  shows "vertexPositions (Polygon sides (Some ps)) =
           map (\<lambda>p. \<lparr>pt_x = truncated (pt_x p), pt_y = truncated (pt_y p)\<rparr>) (take sides ps)"
proof (rule nth_equalityI)
  show "length (vertexPositions (Polygon sides (Some ps))) =
        length (map (\<lambda>p. \<lparr>pt_x = truncated (pt_x p), pt_y = truncated (pt_y p)\<rparr>) (take sides ps))"
    using assms(1) by (simp add: vertexPositions_def vertices_Polygon)
next
  fix i assume "i < length (vertexPositions (Polygon sides (Some ps)))"
  then have i: "i < sides" by (simp add: vertexPositions_def vertices_Polygon)
  with assms(1) have "ps ! i \<in> set (take sides ps)"
    by (metis in_set_conv_nth length_take min.absorb2 nth_take)
  with assms(2) have "prints_positional (pt_x (ps ! i))" "prints_positional (pt_y (ps ! i))"
    by auto
  then show "vertexPositions (Polygon sides (Some ps)) ! i =
        map (\<lambda>p. \<lparr>pt_x = truncated (pt_x p), pt_y = truncated (pt_y p)\<rparr>) (take sides ps) ! i"
    using i assms(1)
    by (simp add: vertexPositions_def vertices_Polygon initial_point_def Vertex_def
        vertex_position_def parseInt_attr_positional)
qed

theorem vertexPositions_roundtrip_witness:
  "vertexPositions (Polygon 3 (Some fractional_points)) =
     map (\<lambda>p. \<lparr>pt_x = truncated (pt_x p), pt_y = truncated (pt_y p)\<rparr>) (take 3 fractional_points)"
  using vertexPositions_roundtrip [of 3 fractional_points]
  by (simp add: fractional_points_def positional_def)

section \<open>Initial vertex positions (C8)\<close>

lemma cos_pi_8_pos: "0 < cos (pi / 8)"
  by (rule cos_gt_zero_pi) (simp_all add: pi_gt_zero less_le_trans [OF _ pi_ge_zero])

lemma radial_angle:
  "(pi * 2 * real i + pi / 2) / real sides = pi / 2 / real sides + real i * (2 * pi / real sides)"
  by (simp add: add_divide_distrib mult_ac)

text \<open>
  C8, as stated, fails twice. Without points the first vertex of a square is placed at
  the angle 90/4 degrees, not at 90 degrees; and a list with fewer than \<open>sides\<close> points
  is not dropped: its entries are used for the indices it covers.
\<close>

theorem initial_positions_counterexample:
  "vertices (Polygon 4 None) \<noteq> spec_initial_vertices 4 None \<and>
   vertices (Polygon 3 (Some [\<lparr>pt_x = Fin 1, pt_y = Fin 2\<rparr>]))
     \<noteq> spec_initial_vertices 3 (Some [\<lparr>pt_x = Fin 1, pt_y = Fin 2\<rparr>])"
proof
  have "cx (hd (vertices (Polygon 4 None))) = Fin (150 + cos (pi / 8) * 100)"
    by (simp add: vertices_Polygon upt_4 initial_point_def radial_def Vertex_def)
  moreover have "cx (hd (spec_initial_vertices 4 None)) = Fin 150"
    by (simp add: spec_initial_vertices_def upt_4 spec_radial_def Vertex_def)
  ultimately show "vertices (Polygon 4 None) \<noteq> spec_initial_vertices 4 None"
    using cos_pi_8_pos by auto
next
  have "cx (hd (vertices (Polygon 3 (Some [\<lparr>pt_x = Fin 1, pt_y = Fin 2\<rparr>])))) = Fin 1"
    by (simp add: vertices_Polygon upt_3 initial_point_def Vertex_def)
  moreover have
    "cx (hd (spec_initial_vertices 3 (Some [\<lparr>pt_x = Fin 1, pt_y = Fin 2\<rparr>]))) = Fin 150"
    by (simp add: spec_initial_vertices_def upt_3 spec_radial_def Vertex_def)
  ultimately show "vertices (Polygon 3 (Some [\<lparr>pt_x = Fin 1, pt_y = Fin 2\<rparr>]))
     \<noteq> spec_initial_vertices 3 (Some [\<lparr>pt_x = Fin 1, pt_y = Fin 2\<rparr>])"
    by auto
qed

text \<open>
  C8, amended. There are \<open>sides\<close> vertices, decided index by index: vertex \<open>i\<close> is the
  entry \<open>i\<close> of the points when there is one, and otherwise lies on the circle of
  radius 100 around (150,150) at the angle \<open>(90 + 360 i) / sides\<close> degrees, that is
  starting at \<open>90 / sides\<close> degrees and stepping by \<open>360 / sides\<close>. In particular a list
  of at least \<open>sides\<close> points gives exactly its first \<open>sides\<close> entries.
\<close>

theorem initial_positions:
  "length (vertices (Polygon sides points)) = sides \<and>
   (\<forall>i<sides. vertices (Polygon sides points) ! i =
      Vertex (if has_point points i then the points ! i
              else \<lparr>pt_x = Fin (150 + cos (pi / 2 / real sides + real i * (2 * pi / real sides)) * 100),
                    pt_y = Fin (150 + sin (pi / 2 / real sides + real i * (2 * pi / real sides)) * 100)\<rparr>)) \<and>
   (\<forall>ps. points = Some ps \<and> sides \<le> length ps \<longrightarrow>
      vertices (Polygon sides points) = map Vertex (take sides ps))"
proof (intro conjI allI impI)
  show "length (vertices (Polygon sides points)) = sides"
    by (simp add: vertices_Polygon)
next
  fix i assume "i < sides"
  then show "vertices (Polygon sides points) ! i =
      Vertex (if has_point points i then the points ! i
              else \<lparr>pt_x = Fin (150 + cos (pi / 2 / real sides + real i * (2 * pi / real sides)) * 100),
                    pt_y = Fin (150 + sin (pi / 2 / real sides + real i * (2 * pi / real sides)) * 100)\<rparr>)"
    using radial_angle [of i sides]
    by (auto simp: vertices_Polygon initial_point_def has_point_def radial_def
        split: option.splits)
next
  fix ps assume "points = Some ps \<and> sides \<le> length ps"
  then show "vertices (Polygon sides points) = map Vertex (take sides ps)"
    by (auto simp: vertices_Polygon initial_point_def intro!: nth_equalityI)
qed

theorem initial_positions_witness:
  "vertices (Polygon 3 (Some fractional_points)) = map Vertex fractional_points \<and>
   vertices (Polygon 4 None) ! 0 =
     Vertex \<lparr>pt_x = Fin (150 + cos (pi / 8) * 100), pt_y = Fin (150 + sin (pi / 8) * 100)\<rparr>"
  using initial_positions [of 3 "Some fractional_points"] initial_positions [of 4 None]
  by (simp add: fractional_points_def has_point_def)

section \<open>Loading the settings (C9)\<close>

text \<open>
  C9, as stated, fails for a malformed record: with the text \<open>{sides\<close> stored,
  \<open>JSON.parse\<close> throws and \<open>Rasterizer\<close> ends with that SyntaxError instead of the
  default settings.
\<close>

theorem malformed_settings_counterexample:
  "load_settings only_empty_object (Some ''{sides'') = Inl SyntaxError \<and>
   load_settings only_empty_object (Some ''{sides'') \<noteq> Inr default_settings"
  by (simp add: load_settings_def only_empty_object_def)

text \<open>
  C9, amended. When no record is stored (or the stored text is empty) the settings are
  the defaults, sides = 4 and points = undefined, and nothing is raised; when the stored
  text is one that \<open>JSON.parse\<close> rejects, its error leaves \<open>Rasterizer\<close>.
\<close>

theorem load_settings_absent_or_malformed:
  assumes "JSON_parse ''{}'' = Inr (JObject [])"
  shows "load_settings JSON_parse None = Inr default_settings \<and>
         load_settings JSON_parse (Some []) = Inr default_settings \<and>
         (\<forall>s e. s \<noteq> [] \<and> JSON_parse s = Inl e \<longrightarrow> load_settings JSON_parse (Some s) = Inl e)"
  using assms by (simp add: load_settings_def)

theorem load_settings_absent_or_malformed_witness:
  "load_settings only_empty_object None = Inr default_settings \<and>
   load_settings only_empty_object (Some ''not json'') = Inl SyntaxError"
  using load_settings_absent_or_malformed [of only_empty_object]
  by (simp add: only_empty_object_def)

section \<open>The crossing left unpaired (C10)\<close>

lemma drop_first_append:
  "\<forall>d \<in> set as. fst d \<noteq> y \<Longrightarrow> fst c = y \<Longrightarrow> drop_first y (as @ c # bs) = as @ bs"
  by (induction as) simp_all

lemma split_last_crossing:
  assumes "crossings_at y cs \<noteq> []"
  shows "\<exists>cs1 c cs2. cs = cs1 @ c # cs2 \<and> fst c = y \<and> (\<forall>d \<in> set cs2. fst d \<noteq> y) \<and>
           drop_last y cs = cs1 @ cs2 \<and> crossings_at y cs = crossings_at y cs1 @ [c]"
proof -
  from assms have "\<exists>c \<in> set cs. fst c = y"
    by (auto simp: crossings_at_def filter_empty_conv)
  from split_list_last_prop [OF this] obtain cs1 c cs2
    where cs: "cs = cs1 @ c # cs2" and c: "fst c = y" and cs2: "\<forall>d \<in> set cs2. fst d \<noteq> y"
    by blast
  have "drop_last y cs = cs1 @ cs2"
    using drop_first_append [of "rev cs2" y c "rev cs1"] cs2 c
    by (simp add: drop_last_def cs)
  moreover have "crossings_at y cs = crossings_at y cs1 @ [c]"
    using c cs2 by (simp add: crossings_at_def cs filter_empty_conv)
  ultimately show ?thesis using cs c cs2 by blast
qed

lemma run_unpaired:
  assumes run: "run T cs \<lparr>squares = Map.empty, xValues = Map.empty\<rparr> = Some st"
    and odd: "odd (length (crossings_at y cs))"
  shows "xValues st y = Some (floor_js (snd (last (crossings_at y cs))) T) \<and>
         run T (drop_last y cs) \<lparr>squares = Map.empty, xValues = Map.empty\<rparr> =
           Some (st\<lparr>xValues := (xValues st)(y := None)\<rparr>)"
proof -
  from odd have "crossings_at y cs \<noteq> []" by auto
  from split_last_crossing [OF this] obtain cs1 c cs2
    where cs: "cs = cs1 @ c # cs2" and c: "fst c = y" and cs2: "\<forall>d \<in> set cs2. fst d \<noteq> y"
      and dl: "drop_last y cs = cs1 @ cs2" and at: "crossings_at y cs = crossings_at y cs1 @ [c]"
    by blast
  from run obtain s1 s2 where r1: "run T cs1 \<lparr>squares = Map.empty, xValues = Map.empty\<rparr> = Some s1"
    and cr: "crossing T (fst c) (snd c) s1 = Some s2" and r2: "run T cs2 s2 = Some st"
    by (auto simp: cs run_append bind_eq_Some_conv)
  from odd at have "even (length (crossings_at y cs1))" by simp
  with run_parity [OF r1, of y] have none: "xValues s1 y = None" by simp
  with cr c have s2: "s2 = s1\<lparr>xValues := (xValues s1)(y \<mapsto> floor_js (snd c) T)\<rparr>"
    by (simp add: crossing_record)
  have "xValues st y = xValues s2 y" by (rule run_other_lines [OF r2 cs2])
  then have pending: "xValues st y = Some (floor_js (snd (last (crossings_at y cs))) T)"
    by (simp add: s2 at)
  have "s2\<lparr>xValues := (xValues s2)(y := None)\<rparr> = s1"
    using none by (simp add: s2 fun_upd_idem)
  with run_frame [OF r2 cs2, of None]
  have "run T cs2 s1 = Some (st\<lparr>xValues := (xValues st)(y := None)\<rparr>)" by simp
  then have "run T (drop_last y cs) \<lparr>squares = Map.empty, xValues = Map.empty\<rparr> =
           Some (st\<lparr>xValues := (xValues st)(y := None)\<rparr>)"
    by (simp add: dl run_append r1)
  with pending show ?thesis by simp
qed

lemma steps_lower: "0 < t \<Longrightarrow> x \<in> set (steps t a n) \<Longrightarrow> a \<le> x"
proof (induction n arbitrary: a)
  case 0
  then show ?case by simp
next
  case (Suc n)
  then show ?case by fastforce
qed

lemma distinct_steps: "0 < t \<Longrightarrow> distinct (steps t a n)"
proof (induction n arbitrary: a)
  case 0
  show ?case by simp
next
  case (Suc n)
  from steps_lower [OF Suc.prems, of a "a + t" n] Suc.prems have "a \<notin> set (steps t (a + t) n)"
    by fastforce
  with Suc.IH [OF Suc.prems] show ?case by simp
qed

lemma edge_scanLines_distinct:
  assumes "0 < t" "edge_scanLines (Fin t) e = Some ys"
  shows "distinct ys"
proof -
  define yb where "yb = edge_yb (Fin t) (position e)"
  define y where "y = js_add (floor_js (edge_ya (Fin t) (position e)) (Fin t)) (Fin t)"
  from assms(2) have ys: "scanLines (Fin t) yb y = Some ys"
    by (simp add: edge_scanLines_def Let_def yb_def y_def)
  show ?thesis
  proof (cases "\<exists>a c. y = Fin a \<and> yb = Fin c")
    case True
    then obtain a c where "y = Fin a" "yb = Fin c" by blast
    with ys scanLines_Fin [OF assms(1), of c a] have "ys = map Fin (steps t a (nat (\<lfloor>(c - a) / t\<rfloor> + 1)))"
      by simp
    then show ?thesis
      using distinct_steps [OF assms(1)] by (simp add: distinct_map inj_on_def)
  next
    case False
    have "no_inf y" "no_inf yb"
      using assms(1) by (simp_all add: y_def yb_def no_inf_edge_yb no_inf_js_add no_inf_floor_js)
    with False have "y = NaN \<or> yb = NaN" by (cases y; cases yb) auto
    then have "\<not> js_le y yb" by (cases y; cases yb) auto
    with ys show ?thesis by (simp add: scanLines_stop)
  qed
qed

text \<open>
  C10. Whatever the polygon and the tile size, when the fill pass returns, its
  crossings form a list \<open>cs\<close>, one crossing for each iteration of an edge's scan loop
  (for a positive tile size an edge meets a line at most once, so the crossings of a
  line count the edges that cross it). For every scan-line \<open>y\<close> with an odd number of
  crossings: the value recorded at the last of them is still pending for \<open>y\<close> at the
  end; the pass without that last crossing ends with the same squares (and the same
  table of pending values but for \<open>y\<close>), so that crossing adds no tile; and the result
  of \<open>computeFilledSquares\<close> is the squares alone, the pending table is dropped.
\<close>

theorem unpaired_crossing_discarded:
  assumes "fillPass T p = Some st"
  shows "\<exists>cs. pass_crossings T (edges p) = Some cs \<and>
           (\<forall>y. odd (length (crossings_at y cs)) \<longrightarrow>
              xValues st y = Some (floor_js (snd (last (crossings_at y cs))) T) \<and>
              run T (drop_last y cs) \<lparr>squares = Map.empty, xValues = Map.empty\<rparr> =
                Some (st\<lparr>xValues := (xValues st)(y := None)\<rparr>)) \<and>
           computeFilledSquares T p = Some (squares st)"
proof -
  from fillPass_crossings [OF assms] obtain cs
    where cs: "pass_crossings T (edges p) = Some cs"
      and run: "run T cs \<lparr>squares = Map.empty, xValues = Map.empty\<rparr> = Some st"
    by blast
  have "computeFilledSquares T p = Some (squares st)"
    by (simp add: computeFilledSquares_def assms)
  with cs run_unpaired [OF run] show ?thesis by blast
qed

theorem unpaired_crossing_discarded_witness:
  "pass_crossings (Fin 20) (edges (Polygon 3 (Some above_points))) = Some [(Fin 0, Fin 20)] \<and>
   odd (length (crossings_at (Fin 0) [(Fin 0, Fin 20)])) \<and>
   fillPass (Fin 20) (Polygon 3 (Some above_points)) =
     Some \<lparr>squares = Map.empty, xValues = [Fin 0 \<mapsto> Fin 20]\<rparr> \<and>
   run (Fin 20) (drop_last (Fin 0) [(Fin 0, Fin 20)]) \<lparr>squares = Map.empty, xValues = Map.empty\<rparr> =
     Some \<lparr>squares = Map.empty, xValues = Map.empty\<rparr> \<and>
   computeFilledSquares (Fin 20) (Polygon 3 (Some above_points)) = Some Map.empty"
proof -
  have fp: "fillPass (Fin 20) (Polygon 3 (Some above_points)) =
     Some \<lparr>squares = Map.empty, xValues = [Fin 0 \<mapsto> Fin 20]\<rparr>"
    by (simp add: polygon_eval fill_eval above_points_def upt_3)
  have pc: "pass_crossings (Fin 20) (edges (Polygon 3 (Some above_points))) = Some [(Fin 0, Fin 20)]"
    by (simp add: polygon_eval fill_eval above_points_def upt_3 edge_crossings_def
        edge_scanLines_def scanLines.simps)
  have od: "odd (length (crossings_at (Fin 0) [(Fin 0, Fin 20)]))"
    by (simp add: crossings_at_def)
  from unpaired_crossing_discarded [OF fp] pc od show ?thesis
    using fp by auto
qed

end
